theory Spec2Isabelle
  imports Main "HOL-Library.Word"
begin

unbundle bit_operations_syntax

section \<open>Strings and buffers\<close>

text \<open>
  A JavaScript string is a sequence of UTF-16 code units; a Node \<open>Buffer\<close> is a sequence
  of bytes. String literals of the source are written \<open>js ''...''\<close>.
\<close>

type_synonym jsstring = "16 word list"
type_synonym buffer = "8 word list"

definition js :: "string \<Rightarrow> jsstring" where
  "js s = map (\<lambda>c. of_nat (of_char c)) s"

text \<open>\<open>s.split(sep)\<close> for a one-character separator, and \<open>parts.join(sep)\<close>.\<close>

fun js_split :: "16 word \<Rightarrow> jsstring \<Rightarrow> jsstring list" where
  "js_split sep [] = [[]]"
| "js_split sep (c # cs) =
     (if c = sep then [] # js_split sep cs
      else (case js_split sep cs of [] \<Rightarrow> [[c]] | p # ps \<Rightarrow> (c # p) # ps))"

fun js_join :: "jsstring \<Rightarrow> jsstring list \<Rightarrow> jsstring" where
  "js_join sep [] = []"
| "js_join sep [p] = p"
| "js_join sep (p # q # ps) = p @ sep @ js_join sep (q # ps)"

text \<open>
  \<open>s.trim()\<close> removes the white space and line terminators of ECMAScript from both ends.
\<close>

definition is_white_space :: "16 word \<Rightarrow> bool" where
  "is_white_space c =
     (c \<in> {0x09, 0x0A, 0x0B, 0x0C, 0x0D, 0x20, 0xA0, 0x1680, 0x2028, 0x2029, 0x202F, 0x205F,
            0x3000, 0xFEFF}
      \<or> (0x2000 \<le> c \<and> c \<le> 0x200A))"

definition trim :: "jsstring \<Rightarrow> jsstring" where
  "trim s = rev (dropWhile is_white_space (rev (dropWhile is_white_space s)))"

text \<open>\<open>xs.indexOf(x)\<close> (\<open>None\<close> for -1) and \<open>xs[i]\<close> (\<open>None\<close> for undefined).\<close>

fun indexOf :: "'a list \<Rightarrow> 'a \<Rightarrow> nat option" where
  "indexOf [] x = None"
| "indexOf (y # ys) x = (if y = x then Some 0 else map_option Suc (indexOf ys x))"

definition at_index :: "'a list \<Rightarrow> nat \<Rightarrow> 'a option" where
  "at_index xs i = (if i < length xs then Some (xs ! i) else None)"

subsection \<open>UTF-8: \<open>Buffer.from(string)\<close> and \<open>buf.toString('utf8')\<close>\<close>

text \<open>
  Node's encoder pairs surrogates into one code point and writes U+FFFD for a lone
  surrogate. Its decoder is the WHATWG one: an ill-formed sequence yields one U+FFFD and
  the byte that broke it is read again. Both work on numbers here; the functions on
  strings and buffers convert at the boundary.
\<close>

definition replacement :: nat where
  "replacement = 0xFFFD"

definition is_surrogate :: "nat \<Rightarrow> bool" where
  "is_surrogate u = (0xD800 \<le> u \<and> u \<le> 0xDFFF)"

definition is_high_surrogate :: "nat \<Rightarrow> bool" where
  "is_high_surrogate u = (0xD800 \<le> u \<and> u \<le> 0xDBFF)"

definition is_low_surrogate :: "nat \<Rightarrow> bool" where
  "is_low_surrogate u = (0xDC00 \<le> u \<and> u \<le> 0xDFFF)"

definition surrogate_pair :: "nat \<Rightarrow> nat \<Rightarrow> nat" where
  "surrogate_pair u v = 0x10000 + (u - 0xD800) * 0x400 + (v - 0xDC00)"

definition lone_unit :: "nat \<Rightarrow> nat" where
  "lone_unit u = (if is_surrogate u then replacement else u)"

fun code_points :: "nat list \<Rightarrow> nat list" where
  "code_points [] = []"
| "code_points [u] = [lone_unit u]"
| "code_points (u # v # us) =
     (if is_high_surrogate u \<and> is_low_surrogate v
      then surrogate_pair u v # code_points us
      else lone_unit u # code_points (v # us))"

definition utf8_bytes :: "nat \<Rightarrow> nat list" where
  "utf8_bytes cp =
     (if cp < 0x80 then [cp]
      else if cp < 0x800 then [0xC0 + cp div 64, 0x80 + cp mod 64]
      else if cp < 0x10000 then [0xE0 + cp div 4096, 0x80 + cp div 64 mod 64, 0x80 + cp mod 64]
      else [0xF0 + cp div 262144, 0x80 + cp div 4096 mod 64, 0x80 + cp div 64 mod 64,
            0x80 + cp mod 64])"

definition utf8_encode :: "nat list \<Rightarrow> nat list" where
  "utf8_encode us = concat (map utf8_bytes (code_points us))"

text \<open>
  The decoder's state while inside a sequence: the code point so far, the continuation
  bytes still needed, and the bounds the next byte must lie in.
\<close>

type_synonym utf8_state = "nat \<times> nat \<times> nat \<times> nat"

definition lead_byte :: "nat \<Rightarrow> utf8_state + nat" where
  "lead_byte b =
     (if b \<le> 0x7F then Inr b
      else if 0xC2 \<le> b \<and> b \<le> 0xDF then Inl (b - 0xC0, 1, 0x80, 0xBF)
      else if 0xE0 \<le> b \<and> b \<le> 0xEF
        then Inl (b - 0xE0, 2, if b = 0xE0 then 0xA0 else 0x80, if b = 0xED then 0x9F else 0xBF)
      else if 0xF0 \<le> b \<and> b \<le> 0xF4
        then Inl (b - 0xF0, 3, if b = 0xF0 then 0x90 else 0x80, if b = 0xF4 then 0x8F else 0xBF)
      else Inr replacement)"

definition in_range :: "utf8_state \<Rightarrow> nat \<Rightarrow> bool" where
  "in_range st b = (case st of (cp, remaining, lower, upper) \<Rightarrow> lower \<le> b \<and> b \<le> upper)"

definition continuation_byte :: "utf8_state \<Rightarrow> nat \<Rightarrow> utf8_state + nat" where
  "continuation_byte st b =
     (case st of (cp, remaining, lower, upper) \<Rightarrow>
        if remaining \<le> 1 then Inr (cp * 64 + (b - 0x80))
        else Inl (cp * 64 + (b - 0x80), remaining - 1, 0x80, 0xBF))"

fun utf8_decode :: "utf8_state option \<Rightarrow> nat list \<Rightarrow> nat list" where
  "utf8_decode None [] = []"
| "utf8_decode (Some st) [] = [replacement]"
| "utf8_decode None (b # bs) =
     (case lead_byte b of
        Inr cp \<Rightarrow> cp # utf8_decode None bs
      | Inl st \<Rightarrow> utf8_decode (Some st) bs)"
| "utf8_decode (Some st) (b # bs) =
     (if \<not> in_range st b then replacement # utf8_decode None (b # bs)
      else case continuation_byte st b of
        Inr cp \<Rightarrow> cp # utf8_decode None bs
      | Inl st' \<Rightarrow> utf8_decode (Some st') bs)"

definition utf16_units :: "nat \<Rightarrow> nat list" where
  "utf16_units cp =
     (if cp < 0x10000 then [cp]
      else [0xD800 + (cp - 0x10000) div 0x400, 0xDC00 + (cp - 0x10000) mod 0x400])"

definition Buffer_from :: "jsstring \<Rightarrow> buffer" where
  "Buffer_from s = map of_nat (utf8_encode (map unat s))"

definition toString_utf8 :: "buffer \<Rightarrow> jsstring" where
  "toString_utf8 buf = map of_nat (concat (map utf16_units (utf8_decode None (map unat buf))))"

text \<open>\<open>buf.toString('ascii')\<close> clears the highest bit of every byte.\<close>

definition toString_ascii :: "buffer \<Rightarrow> jsstring" where
  "toString_ascii buf = map (\<lambda>b. ucast (b AND 0x7F)) buf"

section \<open>dns-utils.ts: nameEquals\<close>

text \<open>
  \<^verbatim>\<open>a.replace(/[A-Z]/g, s => s.toLowerCase())\<close>: every code unit in \<open>A..Z\<close> is replaced by
  its lower-case letter, all others are kept.
\<close>

definition toLowerAZ :: "16 word \<Rightarrow> 16 word" where
  "toLowerAZ c = (if 0x41 \<le> c \<and> c \<le> 0x5A then c + 0x20 else c)"

definition nameEquals :: "jsstring \<Rightarrow> jsstring \<Rightarrow> bool" where
  "nameEquals a b =
     (let aFormatted = map toLowerAZ a;
          bFormatted = map toLowerAZ b
      in aFormatted = bFormatted)"

section \<open>MDNSServer.ts: the record table\<close>

text \<open>
  \<open>MDNSRecord = StringAnswer | TxtAnswer | SrvAnswer\<close> of dns-packet: the record types these
  three carry, and their \<open>data\<close>: a string, a Buffer, an array of strings and Buffers, or
  the SRV object with \<open>port\<close>, \<open>target\<close> and the optional \<open>priority\<close> and \<open>weight\<close>.
\<close>

datatype record_type = A | AAAA | CNAME | DNAME | NS | PTR | SRV | TXT

datatype txt_item = ItemString jsstring | ItemBuffer buffer

datatype txt_data = TxtSingle txt_item | TxtArray "txt_item list"

datatype record_data =
    StringData jsstring
  | BufferData buffer
  | ArrayData "txt_item list"
  | SrvData int jsstring "nat option" "nat option"

record mdns_record =
  r_type :: record_type
  r_name :: jsstring
  r_ttl :: "nat option"
  r_data :: record_data

text \<open>\<open>typeToRecords: Map<RecordType, MDNSRecord[]>\<close>.\<close>

type_synonym record_table = "record_type \<rightharpoonup> mdns_record list"

text \<open>\<open>this.typeToRecords.get(type) ?? []\<close>\<close>

definition get_or_empty :: "record_table \<Rightarrow> record_type \<Rightarrow> mdns_record list" where
  "get_or_empty tbl t = (case tbl t of None \<Rightarrow> [] | Some rs \<Rightarrow> rs)"

text \<open>
  \<open>deepEqual\<close> of fast-deep-equal on these values: strings are compared by \<open>===\<close>; two
  Buffers are equal when \<open>a.toString() === b.toString()\<close>, since a Buffer has a
  \<open>toString\<close> of its own; two arrays when they have the same length and equal elements;
  two SRV objects when they have the same keys with equal values; values of different
  kinds are not equal.
\<close>

fun item_equal :: "txt_item \<Rightarrow> txt_item \<Rightarrow> bool" where
  "item_equal (ItemString a) (ItemString b) = (a = b)"
| "item_equal (ItemBuffer a) (ItemBuffer b) = (toString_utf8 a = toString_utf8 b)"
| "item_equal _ _ = False"

fun deepEqual :: "record_data \<Rightarrow> record_data \<Rightarrow> bool" where
  "deepEqual (StringData a) (StringData b) = (a = b)"
| "deepEqual (BufferData a) (BufferData b) = (toString_utf8 a = toString_utf8 b)"
| "deepEqual (ArrayData a) (ArrayData b) = (length a = length b \<and> list_all2 item_equal a b)"
| "deepEqual (SrvData port target priority weight) (SrvData port' target' priority' weight') =
     (port = port' \<and> target = target' \<and> priority = priority' \<and> weight = weight')"
| "deepEqual _ _ = False"

definition isDuplicate :: "mdns_record \<Rightarrow> mdns_record \<Rightarrow> bool" where
  "isDuplicate a b =
     (r_type a = r_type b \<and> r_name a = r_name b \<and> deepEqual (r_data a) (r_data b))"

text \<open>One iteration of the loop of \<open>register\<close>, and the loop.\<close>

definition register_one :: "record_table \<Rightarrow> mdns_record \<Rightarrow> record_table" where
  "register_one tbl record =
     (let type = r_type record;
          records = get_or_empty tbl type;
          records' = (if list_all (\<lambda>r. \<not> isDuplicate r record) records
                      then records @ [record] else records)
      in tbl(type \<mapsto> records'))"

definition register :: "mdns_record list \<Rightarrow> record_table \<Rightarrow> record_table" where
  "register records tbl = foldl register_one tbl records"

text \<open>One iteration of the loop of \<open>unregister\<close>, and the loop.\<close>

definition unregister_one :: "record_table \<Rightarrow> mdns_record \<Rightarrow> record_table" where
  "unregister_one tbl record =
     (let type = r_type record;
          records = get_or_empty tbl type;
          filtered = filter (\<lambda>r. r_name r \<noteq> r_name record) records
      in if length filtered > 0 then tbl(type \<mapsto> filtered) else tbl(type := None))"

definition unregister :: "mdns_record list \<Rightarrow> record_table \<Rightarrow> record_table" where
  "unregister records tbl = foldl unregister_one tbl records"

text \<open>The calls a Responder receives, run from the empty table of a new server.\<close>

datatype table_op = Register "mdns_record list" | Unregister "mdns_record list"

fun apply_table_op :: "record_table \<Rightarrow> table_op \<Rightarrow> record_table" where
  "apply_table_op tbl (Register rs) = register rs tbl"
| "apply_table_op tbl (Unregister rs) = unregister rs tbl"

definition run_table :: "table_op list \<Rightarrow> record_table" where
  "run_table ops = foldl apply_table_op Map.empty ops"

definition all_types :: "record_type list" where
  "all_types = [A, AAAA, CNAME, DNAME, NS, PTR, SRV, TXT]"

definition all_records :: "record_table \<Rightarrow> mdns_record list" where
  "all_records tbl = concat (map (get_or_empty tbl) all_types)"

text \<open>How many records of the table \<open>register\<close> takes for duplicates of \<open>r\<close>.\<close>

definition occurrences :: "record_table \<Rightarrow> mdns_record \<Rightarrow> nat" where
  "occurrences tbl r = length (filter (\<lambda>x. isDuplicate x r) (all_records tbl))"

text \<open>
  What \<open>isDuplicate\<close> compares of a record: the type, the name, and the data with every
  Buffer in it read as text.
\<close>

datatype data_text =
    TextString jsstring
  | TextBuffer jsstring
  | TextArray "(jsstring + jsstring) list"
  | TextSrv int jsstring "nat option" "nat option"

fun item_text :: "txt_item \<Rightarrow> jsstring + jsstring" where
  "item_text (ItemString s) = Inl s"
| "item_text (ItemBuffer b) = Inr (toString_utf8 b)"

fun text_of_data :: "record_data \<Rightarrow> data_text" where
  "text_of_data (StringData s) = TextString s"
| "text_of_data (BufferData b) = TextBuffer (toString_utf8 b)"
| "text_of_data (ArrayData items) = TextArray (map item_text items)"
| "text_of_data (SrvData port target priority weight) = TextSrv port target priority weight"

definition triple :: "mdns_record \<Rightarrow> record_type \<times> jsstring \<times> data_text" where
  "triple r = (r_type r, r_name r, text_of_data (r_data r))"

definition no_duplicates :: "record_table \<Rightarrow> bool" where
  "no_duplicates tbl = distinct (map triple (all_records tbl))"

section \<open>dns-utils.ts: the TXT codec\<close>

text \<open>
  A TXT value is a string, a number, a boolean or a Buffer. The template literal
  \<^verbatim>\<open>`${key}=${value}`\<close> converts it to a string; a number is carried here as the string that
  conversion gives, a Buffer converts by \<open>toString('utf8')\<close>. The argument of \<open>encodeTXT\<close>
  is the object as \<open>Object.entries\<close> lists it.
\<close>

datatype txt_value = VString jsstring | VNumber jsstring | VBoolean bool | VBuffer buffer

fun template_string :: "txt_value \<Rightarrow> jsstring" where
  "template_string (VString s) = s"
| "template_string (VNumber s) = s"
| "template_string (VBoolean b) = (if b then js ''true'' else js ''false'')"
| "template_string (VBuffer b) = toString_utf8 b"

definition encodeTXT :: "(jsstring \<times> txt_value) list \<Rightarrow> buffer list" where
  "encodeTXT data = map (\<lambda>(key, value). Buffer_from (key @ js ''='' @ template_string value)) data"

text \<open>The values of the object \<open>decodeTXT\<close> returns: strings, or Buffers when \<open>binary\<close>.\<close>

datatype txt_decoded = DString jsstring | DBuffer buffer

text \<open>
  The inner \<open>decode\<close> returns an object with one computed key; it is given here by its
  \<open>Object.entries\<close>.
\<close>

definition decode :: "txt_item \<Rightarrow> bool \<Rightarrow> (jsstring \<times> txt_decoded) list" where
  "decode item binary =
     (let buf = (case item of ItemBuffer b \<Rightarrow> b | ItemString s \<Rightarrow> Buffer_from s);
          asciiStr = toString_ascii buf
      in case indexOf asciiStr 0x3D of
           None \<Rightarrow> (if binary then [(asciiStr, DBuffer [])] else [(asciiStr, DString [])])
         | Some eqIndex \<Rightarrow>
             (let key = take eqIndex asciiStr;
                  valueBuf = drop (eqIndex + 1) buf;
                  value = (if binary then DBuffer valueBuf else DString (toString_utf8 valueBuf))
              in [(key, value)]))"

text \<open>
  \<open>result[key] = value\<close> on the object literal \<open>result\<close>. The key \<open>__proto__\<close> reaches the
  accessor inherited from \<open>Object.prototype\<close> and creates no property of the object
  itself: a string value is ignored, a Buffer value becomes the prototype of \<open>result\<close>.
  What later assignments do then (bind, do nothing, or throw a TypeError) depends on that
  Buffer and is not modelled: the run ends with \<open>PrototypeReplaced\<close>. Every other key is
  bound to the value, replacing an earlier binding.
\<close>

datatype 'a outcome = Returns 'a | PrototypeReplaced

definition assign ::
  "(jsstring \<rightharpoonup> txt_decoded) \<Rightarrow> jsstring \<Rightarrow> txt_decoded \<Rightarrow> (jsstring \<rightharpoonup> txt_decoded) outcome" where
  "assign result key value =
     (if key = js ''__proto__''
      then (case value of DString s \<Rightarrow> Returns result | DBuffer b \<Rightarrow> PrototypeReplaced)
      else Returns (result(key \<mapsto> value)))"

text \<open>\<open>[buffer].flat()\<close>\<close>

fun flat :: "txt_data \<Rightarrow> txt_item list" where
  "flat (TxtSingle item) = [item]"
| "flat (TxtArray items) = items"

text \<open>The body of the loop of \<open>decodeTXT\<close>, and the loop.\<close>

definition decodeTXT_step ::
  "bool \<Rightarrow> (jsstring \<rightharpoonup> txt_decoded) \<Rightarrow> txt_item \<Rightarrow> (jsstring \<rightharpoonup> txt_decoded) outcome" where
  "decodeTXT_step binary result buffer =
     (let entries = decode buffer binary
      in case entries of
           [(key, value)] \<Rightarrow> assign result key value
         | _ \<Rightarrow> Returns result)"

fun decodeTXT_loop ::
  "bool \<Rightarrow> (jsstring \<rightharpoonup> txt_decoded) \<Rightarrow> txt_item list \<Rightarrow> (jsstring \<rightharpoonup> txt_decoded) outcome" where
  "decodeTXT_loop binary result [] = Returns result"
| "decodeTXT_loop binary result (buffer # buffers) =
     (case decodeTXT_step binary result buffer of
        Returns result' \<Rightarrow> decodeTXT_loop binary result' buffers
      | PrototypeReplaced \<Rightarrow> PrototypeReplaced)"

definition decodeTXT :: "txt_data \<Rightarrow> bool \<Rightarrow> (jsstring \<rightharpoonup> txt_decoded) outcome" where
  "decodeTXT buffer binary = decodeTXT_loop binary Map.empty (flat buffer)"

section \<open>ServiceType.ts\<close>

record ServiceType =
  st_name :: "jsstring option"
  st_protocol :: "jsstring option"
  st_subtype :: "jsstring option"

datatype error =
    EmptyServiceType
  | SubFirst
  | MissingNameOrProtocol
  | InvalidPort

definition strip_underscore :: "jsstring \<Rightarrow> jsstring" where
  "strip_underscore part = (case part of c # rest \<Rightarrow> if c = 0x5F then rest else part | [] \<Rightarrow> part)"

definition fromString :: "jsstring \<Rightarrow> error + ServiceType" where
  "fromString input =
     (if input = [] then Inl EmptyServiceType
      else
        let parts = map trim (js_split 0x2E input);
            parts = map strip_underscore parts;
            subIndex = indexOf parts (js ''sub'')
        in case subIndex of
             Some i \<Rightarrow>
               if i = 0 then Inl SubFirst
               else
                 let subtype = at_index parts (i - 1);
                     name = at_index parts (i + 1);
                     protocol = at_index parts (i + 2)
                 in if name = None \<or> protocol = None then Inl MissingNameOrProtocol
                    else Inr \<lparr>st_name = name, st_protocol = protocol, st_subtype = subtype\<rparr>
           | None \<Rightarrow>
               let name = at_index parts 0;
                   protocol = at_index parts 1
               in if name = None \<or> protocol = None then Inl MissingNameOrProtocol
                  else Inr \<lparr>st_name = name, st_protocol = protocol, st_subtype = None\<rparr>)"

definition toString :: "ServiceType \<Rightarrow> jsstring" where
  "toString t =
     (let parts = (case st_subtype t of Some s \<Rightarrow> [0x5F # s, js ''_sub''] | None \<Rightarrow> []);
          parts = parts @ (case st_name t of Some n \<Rightarrow> [0x5F # n] | None \<Rightarrow> []);
          parts = parts @ (case st_protocol t of Some p \<Rightarrow> [0x5F # p] | None \<Rightarrow> [])
      in js_join (js ''.'') parts)"

section \<open>Service.ts\<close>

record ServiceOptions =
  o_protocol :: "jsstring option"
  o_type :: jsstring
  o_subtypes :: "jsstring list option"
  o_name :: jsstring
  o_host :: "jsstring option"
  o_port :: int
  o_txt :: "(jsstring \<times> txt_value) list option"
  o_ttl :: "nat option"
  o_probe :: "bool option"
  o_probeAutoResolve :: "bool option"
  o_disableIPv6 :: "bool option"

datatype service_event = Up | Down

text \<open>
  The fields of a \<open>Service\<close>; \<open>s_registry\<close> tells whether a registry is attached, and
  \<open>s_emitted\<close> lists the events the service has emitted, oldest first.
\<close>

record service =
  s_protocol :: jsstring
  s_type :: jsstring
  s_name :: jsstring
  s_subtypes :: "jsstring list"
  s_host :: jsstring
  s_port :: int
  s_txt :: "(jsstring \<times> txt_value) list"
  s_ttl :: nat
  s_probe :: bool
  s_probeAutoResolve :: bool
  s_disableIPv6 :: bool
  s_fqdn :: jsstring
  s_started :: bool
  s_published :: bool
  s_destroyed :: bool
  s_registry :: bool
  s_emitted :: "service_event list"

definition TLD :: jsstring where
  "TLD = js ''.local''"

definition or_default :: "'a option \<Rightarrow> 'a \<Rightarrow> 'a" where
  "or_default x d = (case x of None \<Rightarrow> d | Some v \<Rightarrow> v)"

text \<open>The constructor; \<open>hostname\<close> is what \<open>os.hostname()\<close> returns.\<close>

definition new_Service :: "jsstring \<Rightarrow> ServiceOptions \<Rightarrow> error + service" where
  "new_Service hostname options =
     (if o_port options \<le> 0 \<or> o_port options > 65535 then Inl InvalidPort
      else
        let protocol = or_default (o_protocol options) (js ''tcp'');
            type = toString \<lparr>st_name = Some (o_type options), st_protocol = Some protocol,
                              st_subtype = None\<rparr>;
            name = js_join (js ''-'') (js_split 0x2E (o_name options))
        in Inr \<lparr>s_protocol = protocol,
                s_type = type,
                s_name = name,
                s_subtypes = or_default (o_subtypes options) [],
                s_host = or_default (o_host options) hostname,
                s_port = o_port options,
                s_txt = or_default (o_txt options) [],
                s_ttl = or_default (o_ttl options) 28800,
                s_probe = or_default (o_probe options) True,
                s_probeAutoResolve = or_default (o_probeAutoResolve options) True,
                s_disableIPv6 = or_default (o_disableIPv6 options) False,
                s_fqdn = name @ js ''.'' @ type @ TLD,
                s_started = False,
                s_published = False,
                s_destroyed = False,
                s_registry = False,
                s_emitted = []\<rparr>)"

definition getRecordPTR :: "service \<Rightarrow> mdns_record" where
  "getRecordPTR s =
     \<lparr>r_type = PTR, r_name = s_type s @ TLD, r_ttl = Some (s_ttl s),
      r_data = StringData (s_fqdn s)\<rparr>"

definition getRecordPTRSubtype :: "service \<Rightarrow> jsstring \<Rightarrow> mdns_record" where
  "getRecordPTRSubtype s subtype =
     \<lparr>r_type = PTR, r_name = js ''_'' @ subtype @ js ''._sub.'' @ s_type s @ TLD,
      r_ttl = Some (s_ttl s),
      r_data = StringData (s_name s @ js ''.'' @ s_type s @ TLD)\<rparr>"

definition getRecordPTRServiceTypeEnumeration :: "service \<Rightarrow> mdns_record" where
  "getRecordPTRServiceTypeEnumeration s =
     \<lparr>r_type = PTR, r_name = js ''_services._dns-sd._udp'' @ TLD, r_ttl = Some (s_ttl s),
      r_data = StringData (s_type s @ TLD)\<rparr>"

definition getRecordSRV :: "service \<Rightarrow> mdns_record" where
  "getRecordSRV s =
     \<lparr>r_type = SRV, r_name = s_fqdn s, r_ttl = Some (s_ttl s),
      r_data = SrvData (s_port s) (s_host s) None None\<rparr>"

definition getRecordTXT :: "service \<Rightarrow> mdns_record" where
  "getRecordTXT s =
     \<lparr>r_type = TXT, r_name = s_fqdn s, r_ttl = Some (s_ttl s),
      r_data = ArrayData (map ItemBuffer (encodeTXT (s_txt s)))\<rparr>"

definition getRecordA :: "service \<Rightarrow> jsstring \<Rightarrow> mdns_record" where
  "getRecordA s ip =
     \<lparr>r_type = A, r_name = s_host s, r_ttl = Some (s_ttl s), r_data = StringData ip\<rparr>"

definition getRecordAAAA :: "service \<Rightarrow> jsstring \<Rightarrow> mdns_record" where
  "getRecordAAAA s ip =
     \<lparr>r_type = AAAA, r_name = s_host s, r_ttl = Some (s_ttl s), r_data = StringData ip\<rparr>"

text \<open>An entry of \<open>os.networkInterfaces()\<close>.\<close>

datatype address_family = IPv4 | IPv6

record interface_address =
  i_address :: jsstring
  i_family :: address_family
  i_mac :: jsstring
  i_internal :: bool

definition address_records :: "service \<Rightarrow> interface_address \<Rightarrow> mdns_record list" where
  "address_records s addr =
     (if i_internal addr \<or> i_mac addr = js ''00:00:00:00:00:00'' then []
      else if i_family addr = IPv4 then [getRecordA s (i_address addr)]
      else if s_disableIPv6 s then []
      else [getRecordAAAA s (i_address addr)])"

text \<open>\<open>ifaces\<close> is \<open>Object.values(os.networkInterfaces())\<close>.\<close>

definition getRecords :: "interface_address list option list \<Rightarrow> service \<Rightarrow> mdns_record list" where
  "getRecords ifaces s =
     [getRecordPTR s, getRecordSRV s, getRecordTXT s, getRecordPTRServiceTypeEnumeration s]
     @ map (getRecordPTRSubtype s) (s_subtypes s)
     @ concat (map (\<lambda>iface. concat (map (address_records s) (or_default iface []))) ifaces)"

section \<open>Registry.ts\<close>

text \<open>
  The server as the registry uses it: the record table, and the packets handed to
  \<open>mdns.respond\<close>, oldest first. The transport calls every callback it is given; a callback
  runs here together with the call that passes it, except in \<open>broadcast\<close> and \<open>probe\<close>,
  whose callbacks are steps of their own.
\<close>

record server =
  typeToRecords :: record_table
  responses :: "mdns_record list list"

definition REANNOUNCE_MAX_MS :: nat where
  "REANNOUNCE_MAX_MS = 60 * 60 * 1000"

definition REANNOUNCE_FACTOR :: nat where
  "REANNOUNCE_FACTOR = 3"

subsection \<open>goodbye and Service.stop\<close>

text \<open>
  The services of the list are distinct objects the callback of \<open>goodbye\<close> updates; the
  function returns them updated, in the order given. The callback treats a transmit
  error and a success alike, but for the promise it settles. The array \<open>startedServices\<close>
  of the registry, which only \<open>unpublishAll\<close> and \<open>destroy\<close> read, is left out.
\<close>

definition goodbye ::
  "interface_address list option list \<Rightarrow> service list \<Rightarrow> server \<Rightarrow> service list \<times> server" where
  "goodbye ifaces services srv =
     (let publishedServices = filter s_published services
      in if length publishedServices = 0 then (services, srv)
         else
           let records = concat (map (\<lambda>service. map (\<lambda>record. record\<lparr>r_ttl := Some 0\<rparr>)
                                                       (getRecords ifaces service))
                                     publishedServices)
           in if length records = 0 then (services, srv)
              else
                (map (\<lambda>service.
                        if s_published service
                        then service\<lparr>s_published := False,
                                     s_emitted := s_emitted service @ [Down]\<rparr>
                        else service) services,
                 srv\<lparr>typeToRecords := unregister records (typeToRecords srv),
                      responses := responses srv @ [records]\<rparr>))"

definition onServiceStop ::
  "interface_address list option list \<Rightarrow> service \<Rightarrow> server \<Rightarrow> service \<times> server" where
  "onServiceStop ifaces service srv =
     (case goodbye ifaces [service] srv of
        ([service'], srv') \<Rightarrow> (service', srv')
      | (_, srv') \<Rightarrow> (service, srv'))"

definition stop ::
  "interface_address list option list \<Rightarrow> service \<Rightarrow> server \<Rightarrow> service \<times> server" where
  "stop ifaces service srv =
     (if s_started service
      then
        let service = service\<lparr>s_started := False\<rparr>
        in if s_registry service then onServiceStop ifaces service srv else (service, srv)
      else (service, srv))"

subsection \<open>announce\<close>

text \<open>
  What the callback of \<open>mdns.respond\<close> in \<open>broadcast\<close> does to the service.
\<close>

definition announce_sent :: "service \<Rightarrow> service" where
  "announce_sent service =
     (if \<not> s_published service
      then service\<lparr>s_published := True, s_emitted := s_emitted service @ [Up]\<rparr>
      else service)"

text \<open>
  The closure \<open>broadcast\<close> with its variable \<open>delay\<close>, run with nothing else touching the
  service: a transmit happens at the time of the call, its callback only logs an error,
  and \<open>setTimeout(broadcast, delay)\<close> moves the clock by \<open>delay\<close> milliseconds to the next
  call. \<open>an_transmissions\<close> lists the times at which the records were handed to
  \<open>mdns.respond\<close>. A run that never ends has the value \<open>None\<close>.
\<close>

record announcer =
  an_service :: service
  an_delay :: nat
  an_clock :: nat
  an_transmissions :: "nat list"

partial_function (option) broadcast :: "announcer \<Rightarrow> announcer option" where
  "broadcast a =
     (if \<not> s_started (an_service a) \<or> s_destroyed (an_service a) then Some a
      else
        let a = a\<lparr>an_transmissions := an_transmissions a @ [an_clock a]\<rparr>;
            a = a\<lparr>an_service := announce_sent (an_service a)\<rparr>;
            a = a\<lparr>an_delay := an_delay a * REANNOUNCE_FACTOR\<rparr>
        in if an_delay a < REANNOUNCE_MAX_MS \<and> \<not> s_destroyed (an_service a)
           then broadcast (a\<lparr>an_clock := an_clock a + an_delay a\<rparr>)
           else Some a)"

definition announce ::
  "interface_address list option list \<Rightarrow> nat \<Rightarrow> service \<Rightarrow> server \<Rightarrow> announcer option \<times> server" where
  "announce ifaces now service srv =
     (let records = getRecords ifaces service;
          srv = srv\<lparr>typeToRecords := register records (typeToRecords srv)\<rparr>
      in (broadcast \<lparr>an_service = service, an_delay = 1000, an_clock = now,
                     an_transmissions = []\<rparr>, srv))"

text \<open>The waits between consecutive transmissions.\<close>

definition waits :: "nat list \<Rightarrow> nat list" where
  "waits ts = map (\<lambda>(t, t'). t' - t) (zip ts (tl ts))"

subsection \<open>probe\<close>












section \<open>Browser.ts\<close>

datatype name_filter = NameString jsstring | NameRegExp jsstring

text \<open>
  The fields of the filter that \<open>queryNames\<close> reads (\<open>txt\<close> is read by \<open>match\<close> only); a
  regular expression is carried as its source.
\<close>

record BrowserFilter =
  f_protocol :: jsstring
  f_type :: jsstring
  f_subtypes :: "jsstring list option"
  f_name :: "name_filter option"

text \<open>
  A browser with the part of the \<open>mdns\<close> object it acts on: \<open>b_onresponse\<close> tells whether
  the field \<open>onresponse\<close> is set, \<open>b_listeners\<close> counts the \<open>response\<close> listeners the browser
  has registered and not removed, \<open>b_queries\<close> lists the questions handed to \<open>mdns.query\<close>.
\<close>

record 'svc browser =
  b_filter :: "BrowserFilter option"
  b_services :: "'svc list"
  b_onresponse :: bool
  b_listeners :: nat
  b_queries :: "(jsstring \<times> record_type) list"

definition WILDCARD :: jsstring where
  "WILDCARD = js ''_services._dns-sd._udp'' @ TLD"

definition queryNames :: "'svc browser \<Rightarrow> jsstring list" where
  "queryNames b =
     (case b_filter b of
        None \<Rightarrow> [WILDCARD]
      | Some flt \<Rightarrow>
          let types =
                (case f_subtypes flt of
                   Some (subtype # subtypes) \<Rightarrow>
                     map (\<lambda>subtype. toString \<lparr>st_name = Some (f_type flt),
                                               st_protocol = Some (f_protocol flt),
                                               st_subtype = Some subtype\<rparr>)
                         (subtype # subtypes)
                 | _ \<Rightarrow> [toString \<lparr>st_name = Some (f_type flt),
                                    st_protocol = Some (f_protocol flt),
                                    st_subtype = None\<rparr>])
          in map (\<lambda>typeStr.
                    case f_name flt of
                      Some (NameString name) \<Rightarrow> name @ js ''.'' @ typeStr @ TLD
                    | _ \<Rightarrow> typeStr @ TLD) types)"

definition update :: "'svc browser \<Rightarrow> 'svc browser" where
  "update b = b\<lparr>b_queries := b_queries b @ map (\<lambda>queryName. (queryName, PTR)) (queryNames b)\<rparr>"

definition start :: "'svc browser \<Rightarrow> 'svc browser" where
  "start b =
     (if b_onresponse b then b
      else update (b\<lparr>b_onresponse := True, b_listeners := b_listeners b + 1\<rparr>))"

section \<open>Predicates and example values of the statements\<close>

text \<open>
  The invariant of the record table: a bucket holds records of its own type only, and no
  two records of a bucket have the same \<open>(type, name, data)\<close>.
\<close>

definition table_inv :: "record_table \<Rightarrow> bool" where
  "table_inv tbl = (\<forall>t. (\<forall>r\<in>set (get_or_empty tbl t). r_type r = t)
                        \<and> distinct (map triple (get_or_empty tbl t)))"

definition present :: "record_table \<Rightarrow> mdns_record \<Rightarrow> bool" where
  "present tbl r = (triple r \<in> triple ` set (get_or_empty tbl (r_type r)))"

definition rec_Foo :: mdns_record where
  "rec_Foo = \<lparr>r_type = PTR, r_name = js ''Foo.local'', r_ttl = Some 120,
              r_data = StringData (js ''x.local'')\<rparr>"

definition rec_foo :: mdns_record where
  "rec_foo = \<lparr>r_type = PTR, r_name = js ''foo.local'', r_ttl = Some 0,
              r_data = StringData (js ''x.local'')\<rparr>"

text \<open>Two TXT records whose data differ in a byte that is not valid UTF-8.\<close>

definition rec_ff :: mdns_record where
  "rec_ff = \<lparr>r_type = TXT, r_name = js ''x.local'', r_ttl = Some 120,
             r_data = ArrayData [ItemBuffer [0xFF]]\<rparr>"

definition rec_fe :: mdns_record where
  "rec_fe = \<lparr>r_type = TXT, r_name = js ''x.local'', r_ttl = Some 120,
             r_data = ArrayData [ItemBuffer [0xFE]]\<rparr>"



text \<open>
  A label that survives \<open>toString\<close> and \<open>fromString\<close>: it has no dot, and it does not end
  in white space.
\<close>

definition good_label :: "jsstring \<Rightarrow> bool" where
  "good_label l = (0x2E \<notin> set l \<and> (l = [] \<or> \<not> is_white_space (last l)))"

text \<open>
  A string is well formed when every surrogate in it is part of a pair, a high one
  followed by a low one.
\<close>

fun well_formed :: "nat list \<Rightarrow> bool" where
  "well_formed [] = True"
| "well_formed [u] = (\<not> is_surrogate u)"
| "well_formed (u # v # us) =
     (if is_high_surrogate u \<and> is_low_surrogate v then well_formed us
      else \<not> is_surrogate u \<and> well_formed (v # us))"

definition well_formed_string :: "jsstring \<Rightarrow> bool" where
  "well_formed_string s = well_formed (map unat s)"

text \<open>A Unicode scalar value: a code point that is not a surrogate.\<close>

definition scalar :: "nat \<Rightarrow> bool" where
  "scalar c = (c < 0x110000 \<and> \<not> is_surrogate c)"

text \<open>A key of ASCII characters other than \<open>=\<close>.\<close>

definition ascii_key :: "jsstring \<Rightarrow> bool" where
  "ascii_key key = (\<forall>c\<in>set key. c < 0x80 \<and> c \<noteq> 0x3D)"

text \<open>The key and the value of the one entry that \<open>decode\<close> returns for an item.\<close>

definition item_key :: "txt_item \<Rightarrow> jsstring" where
  "item_key item = (case decode item False of (key, value) # _ \<Rightarrow> key | [] \<Rightarrow> [])"

definition item_value :: "txt_item \<Rightarrow> bool \<Rightarrow> txt_decoded" where
  "item_value item binary =
     (case decode item binary of (key, value) # _ \<Rightarrow> value | [] \<Rightarrow> DString [])"

text \<open>
  A service as \<open>makeService\<close> and \<open>start\<close> leave it: built by the constructor from
  \<open>example_options\<close> on the host \<open>host\<close>, attached to its registry, and started.
\<close>

definition example_options :: ServiceOptions where
  "example_options =
     \<lparr>o_protocol = None, o_type = js ''http'', o_subtypes = None, o_name = js ''Foo.Bar'',
      o_host = None, o_port = 3000, o_txt = Some [(js ''foo'', VString (js ''bar''))],
      o_ttl = Some 120, o_probe = Some False, o_probeAutoResolve = None, o_disableIPv6 = None\<rparr>"

definition example_service :: service where
  "example_service =
     \<lparr>s_protocol = js ''tcp'', s_type = js ''_http._tcp'', s_name = js ''Foo-Bar'',
      s_subtypes = [], s_host = js ''host'', s_port = 3000,
      s_txt = [(js ''foo'', VString (js ''bar''))], s_ttl = 120, s_probe = False,
      s_probeAutoResolve = True, s_disableIPv6 = False,
      s_fqdn = js ''Foo-Bar._http._tcp.local'', s_started = True, s_published = False,
      s_destroyed = False, s_registry = True, s_emitted = []\<rparr>"

definition example_server :: server where
  "example_server = \<lparr>typeToRecords = Map.empty, responses = []\<rparr>"




definition example_browser :: "unit browser" where
  "example_browser =
     \<lparr>b_filter = Some \<lparr>f_protocol = js ''tcp'', f_type = js ''http'', f_subtypes = None,
                         f_name = None\<rparr>,
      b_services = [], b_onresponse = False, b_listeners = 0, b_queries = []\<rparr>"

section \<open>The record table: unregister\<close>

lemma get_or_empty_unregister_one:
  "get_or_empty (unregister_one tbl r) t =
     (if t = r_type r then filter (\<lambda>x. r_name x \<noteq> r_name r) (get_or_empty tbl t)
      else get_or_empty tbl t)"
  by (simp add: unregister_one_def get_or_empty_def Let_def)

text \<open>
  What \<open>unregister\<close> leaves in a bucket: the records whose name differs from the name of
  every given record of the bucket's type.
\<close>

lemma get_or_empty_unregister:
  "get_or_empty (unregister rs tbl) t =
     filter (\<lambda>x. \<forall>r\<in>set rs. r_type r = t \<longrightarrow> r_name x \<noteq> r_name r) (get_or_empty tbl t)"
  unfolding unregister_def
proof (induction rs arbitrary: tbl)
  case Nil
  then show ?case by simp
next
  case (Cons r rs)
  show ?case
    by (simp add: Cons.IH get_or_empty_unregister_one)
qed

lemma unregister_one_nonempty:
  "tbl t \<noteq> Some [] \<or> t = r_type r \<Longrightarrow> unregister_one tbl r t \<noteq> Some []"
  by (auto simp: unregister_one_def Let_def)

lemma unregister_nonempty_pres:
  "tbl t \<noteq> Some [] \<Longrightarrow> unregister rs tbl t \<noteq> Some []"
  unfolding unregister_def
  by (induction rs arbitrary: tbl) (simp_all add: unregister_one_nonempty)

lemma unregister_deletes_empty:
  "r' \<in> set rs \<Longrightarrow> unregister rs tbl (r_type r') \<noteq> Some []"
proof (induction rs arbitrary: tbl)
  case Nil
  then show ?case by simp
next
  case (Cons r rs)
  show ?case
  proof (cases "r' = r")
    case True
    have "unregister_one tbl r (r_type r') \<noteq> Some []"
      using True by (simp add: unregister_one_nonempty)
    then have "unregister rs (unregister_one tbl r) (r_type r') \<noteq> Some []"
      by (rule unregister_nonempty_pres)
    then show ?thesis by (simp add: unregister_def)
  next
    case False
    with Cons.prems have "r' \<in> set rs" by simp
    from Cons.IH [OF this, of "unregister_one tbl r"] show ?thesis
      by (simp add: unregister_def)
  qed
qed

text \<open>
  C1, as the code has it: for every call \<open>unregister(records)\<close> and every record \<open>r'\<close> of
  \<open>records\<close>, every record held in the bucket of the type of \<open>r'\<close> whose name is the same
  string as the name of \<open>r'\<close> is removed, and the bucket is deleted when nothing is left
  in it. The comparison is \<open>!==\<close> on the names: it is exact, not case-insensitive.
\<close>

theorem unregister_removes_same_name:
  assumes "r' \<in> set records"
  shows "(\<forall>r \<in> set (get_or_empty tbl (r_type r')).
            r_name r = r_name r' \<longrightarrow>
            r \<notin> set (get_or_empty (unregister records tbl) (r_type r')))
         \<and> unregister records tbl (r_type r') \<noteq> Some []"
  using assms by (auto simp: get_or_empty_unregister unregister_deletes_empty)

theorem unregister_removes_same_name_witness:
  "rec_Foo \<in> set [rec_Foo]
   \<and> rec_Foo \<notin> set (get_or_empty (unregister [rec_Foo] (register [rec_Foo, rec_foo] Map.empty)) PTR)
   \<and> unregister [rec_Foo] (register [rec_Foo] Map.empty) PTR = None"
  using unregister_removes_same_name [of rec_Foo "[rec_Foo]" "register [rec_Foo, rec_foo] Map.empty"]
  by (simp add: rec_Foo_def rec_foo_def js_def unregister_def
      unregister_one_def register_def register_one_def get_or_empty_def isDuplicate_def)

text \<open>
  C1 as stated fails: \<open>Foo.local\<close> and \<open>foo.local\<close> are equal under \<open>nameEquals\<close>, and
  unregistering a record named \<open>foo.local\<close> leaves the registered \<open>Foo.local\<close> in its bucket.
\<close>

theorem unregister_case_counterexample:
  "nameEquals (r_name rec_Foo) (r_name rec_foo)
   \<and> r_type rec_Foo = r_type rec_foo
   \<and> rec_Foo \<in> set (get_or_empty (unregister [rec_foo] (register [rec_Foo] Map.empty))
                                   (r_type rec_foo))"
  by (simp add: rec_Foo_def rec_foo_def nameEquals_def toLowerAZ_def js_def unregister_def
      unregister_one_def register_def register_one_def get_or_empty_def isDuplicate_def)

section \<open>The record table: register\<close>

lemma item_equal_text: "item_equal a b = (item_text a = item_text b)"
  by (cases a; cases b) simp_all

lemma list_all2_item_equal: "list_all2 item_equal a b = (map item_text a = map item_text b)"
proof (induction a arbitrary: b)
  case Nil
  then show ?case by simp
next
  case (Cons x a)
  then show ?case by (cases b) (simp_all add: item_equal_text)
qed

lemma items_equal_text:
  "(length a = length b \<and> list_all2 item_equal a b) = (map item_text a = map item_text b)"
  using list_all2_lengthD [of item_equal a b] by (auto simp: list_all2_item_equal)

lemma deepEqual_text: "deepEqual a b = (text_of_data a = text_of_data b)"
  by (cases a; cases b) (simp_all add: items_equal_text)

lemma isDuplicate_triple: "isDuplicate a b = (triple a = triple b)"
  by (simp add: isDuplicate_def triple_def deepEqual_text)

lemma get_or_empty_register_one:
  "get_or_empty (register_one tbl r) t =
     (if t = r_type r
      then (if triple r \<in> triple ` set (get_or_empty tbl t) then get_or_empty tbl t
            else get_or_empty tbl t @ [r])
      else get_or_empty tbl t)"
proof (cases "tbl (r_type r)")
  case None
  then show ?thesis
    by (simp add: register_one_def get_or_empty_def Let_def)
next
  case (Some rs)
  then show ?thesis
    by (auto simp: register_one_def get_or_empty_def Let_def list_all_iff isDuplicate_triple
        image_iff)
qed

lemma table_inv_empty: "table_inv Map.empty"
  by (simp add: table_inv_def get_or_empty_def)

lemma table_inv_register_one: "table_inv tbl \<Longrightarrow> table_inv (register_one tbl r)"
  by (auto simp: table_inv_def get_or_empty_register_one)

lemma table_inv_register: "table_inv tbl \<Longrightarrow> table_inv (register rs tbl)"
  unfolding register_def
  by (induction rs arbitrary: tbl) (simp_all add: table_inv_register_one)

lemma table_inv_unregister_one: "table_inv tbl \<Longrightarrow> table_inv (unregister_one tbl r)"
  by (auto simp: table_inv_def get_or_empty_unregister_one distinct_map_filter)

lemma table_inv_unregister: "table_inv tbl \<Longrightarrow> table_inv (unregister rs tbl)"
  unfolding unregister_def
  by (induction rs arbitrary: tbl) (simp_all add: table_inv_unregister_one)

lemma table_inv_apply: "table_inv tbl \<Longrightarrow> table_inv (apply_table_op tbl op)"
  by (cases op) (simp_all add: table_inv_register table_inv_unregister)

lemma table_inv_foldl: "table_inv tbl \<Longrightarrow> table_inv (foldl apply_table_op tbl ops)"
  by (induction ops arbitrary: tbl) (simp_all add: table_inv_apply)

lemma table_inv_run: "table_inv (run_table ops)"
  by (simp add: run_table_def table_inv_foldl table_inv_empty)

lemma distinct_buckets:
  assumes "table_inv tbl" "distinct ts"
  shows "distinct (map triple (concat (map (get_or_empty tbl) ts)))"
  using assms(2)
proof (induction ts)
  case Nil
  then show ?case by simp
next
  case (Cons t ts)
  have types: "\<And>u x. x \<in> set (get_or_empty tbl u) \<Longrightarrow> fst (triple x) = u"
    using assms(1) by (simp add: table_inv_def triple_def)
  have "triple x \<noteq> triple y"
    if "x \<in> set (get_or_empty tbl t)" "u \<in> set ts" "y \<in> set (get_or_empty tbl u)" for x y u
  proof
    assume "triple x = triple y"
    then have "t = u" using types [OF that(1)] types [OF that(3)] by simp
    with that(2) Cons.prems show False by simp
  qed
  then have "triple ` set (get_or_empty tbl t)
               \<inter> triple ` (\<Union>u\<in>set ts. set (get_or_empty tbl u)) = {}"
    by blast
  moreover have "distinct (map triple (get_or_empty tbl t))"
    using assms(1) by (simp add: table_inv_def)
  ultimately show ?case using Cons by simp
qed

lemma table_inv_no_duplicates: "table_inv tbl \<Longrightarrow> no_duplicates tbl"
  unfolding no_duplicates_def all_records_def
  by (rule distinct_buckets) (simp_all add: all_types_def)

lemma set_all_types: "t \<in> set all_types"
  by (cases t) (simp_all add: all_types_def)

lemma occurrences_distinct:
  "distinct (map f xs) \<Longrightarrow> length (filter (\<lambda>x. f x = a) xs) = (if a \<in> f ` set xs then 1 else 0)"
  by (induction xs) auto

lemma present_register_one_same: "present (register_one tbl r) r"
  by (simp add: present_def get_or_empty_register_one)

lemma present_register_one_other: "present tbl r \<Longrightarrow> present (register_one tbl r') r"
  by (auto simp: present_def get_or_empty_register_one)

lemma present_register_pres: "present tbl r \<Longrightarrow> present (register rs tbl) r"
  unfolding register_def
  by (induction rs arbitrary: tbl) (simp_all add: present_register_one_other)

lemma present_register: "r \<in> set rs \<Longrightarrow> present (register rs tbl) r"
proof (induction rs arbitrary: tbl)
  case Nil
  then show ?case by simp
next
  case (Cons a rs)
  show ?case
  proof (cases "r = a")
    case True
    have "present (register rs (register_one tbl a)) a"
      by (rule present_register_pres) (rule present_register_one_same)
    then show ?thesis using True by (simp add: register_def)
  next
    case False
    with Cons.prems have "r \<in> set rs" by simp
    from Cons.IH [OF this, of "register_one tbl a"] show ?thesis by (simp add: register_def)
  qed
qed

lemma register_one_present: "present tbl r \<Longrightarrow> register_one tbl r = tbl"
  by (auto simp: present_def register_one_def get_or_empty_def Let_def list_all_iff
      isDuplicate_triple split: option.splits)

lemma register_all_present: "\<forall>r\<in>set rs. present tbl r \<Longrightarrow> register rs tbl = tbl"
  unfolding register_def
  by (induction rs) (simp_all add: register_one_present)

lemma register_twice: "register rs (register rs tbl) = register rs tbl"
  by (rule register_all_present) (simp add: present_register)

lemma occurrences_present:
  assumes "table_inv tbl" "present tbl r"
  shows "occurrences tbl r = 1"
proof -
  have d: "distinct (map triple (all_records tbl))"
    using table_inv_no_duplicates [OF assms(1)] by (simp add: no_duplicates_def)
  have "triple r \<in> triple ` set (all_records tbl)"
    using assms(2) set_all_types [of "r_type r"] by (auto simp: present_def all_records_def)
  then show ?thesis
    using occurrences_distinct [OF d, of "triple r"]
    by (simp add: occurrences_def isDuplicate_triple)
qed

text \<open>
  What \<open>register\<close> does guarantee, in terms of its own test: on the table a Responder has
  reached by any calls of \<open>register\<close> and \<open>unregister\<close>, registering \<open>R\<close> twice gives the
  table that registering it once gives, for every record of \<open>R\<close> the table then holds
  exactly one record that \<open>isDuplicate\<close> accepts, and no two records of a reachable table
  agree in type, name and the text of their data.
\<close>

lemma register_twice_no_duplicates:
  "register R (register R (run_table ops)) = register R (run_table ops)
   \<and> (\<forall>r\<in>set R. occurrences (register R (register R (run_table ops))) r = 1)
   \<and> no_duplicates (run_table ops)
   \<and> no_duplicates (register R (run_table ops))"
proof (intro conjI ballI)
  show "no_duplicates (register R (run_table ops))"
    by (intro table_inv_no_duplicates table_inv_register table_inv_run)
next
  show "register R (register R (run_table ops)) = register R (run_table ops)"
    by (rule register_twice)
next
  fix r assume "r \<in> set R"
  then have "present (register R (run_table ops)) r" by (rule present_register)
  moreover have "table_inv (register R (run_table ops))"
    by (rule table_inv_register) (rule table_inv_run)
  ultimately show "occurrences (register R (register R (run_table ops))) r = 1"
    by (simp add: register_twice occurrences_present)
next
  show "no_duplicates (run_table ops)"
    by (rule table_inv_no_duplicates) (rule table_inv_run)
qed

lemma register_twice_example:
  "register [rec_Foo, rec_Foo] (register [rec_Foo, rec_Foo] Map.empty) PTR = Some [rec_Foo]
   \<and> register [rec_Foo, rec_foo] Map.empty PTR = Some [rec_Foo, rec_foo]"
  by (simp add: register_def register_one_def get_or_empty_def isDuplicate_def rec_Foo_def
      rec_foo_def js_def)

lemma toString_utf8_invalid_byte:
  "toString_utf8 [0xFF] = [0xFFFD] \<and> toString_utf8 [0xFE] = [0xFFFD]"
  by (simp add: toString_utf8_def lead_byte_def replacement_def utf16_units_def)

text \<open>
  C6 does not hold of the code: the bytes \<open>ff\<close> and \<open>fe\<close> are not valid UTF-8, so both
  Buffers read as the text \<open>U+FFFD\<close>, and \<open>deepEqual\<close> takes the two TXT data for equal.
  \<open>register\<close> called with both records stores the first and drops the second, whose data
  differ: after \<open>register(R)\<close> and \<open>register(R)\<close> again, no bucket holds the second record
  of \<open>R\<close> nor any record with its data.
\<close>

theorem register_drops_buffer_of_same_text:
  "r_type rec_fe = r_type rec_ff \<and> r_name rec_fe = r_name rec_ff
   \<and> r_data rec_fe \<noteq> r_data rec_ff
   \<and> isDuplicate rec_ff rec_fe
   \<and> register [rec_ff, rec_fe] Map.empty = [TXT \<mapsto> [rec_ff]]
   \<and> register [rec_ff, rec_fe] (register [rec_ff, rec_fe] Map.empty) = [TXT \<mapsto> [rec_ff]]
   \<and> all_records (register [rec_ff, rec_fe] (register [rec_ff, rec_fe] Map.empty)) = [rec_ff]"
  by (simp add: register_def register_one_def get_or_empty_def isDuplicate_def rec_ff_def
      rec_fe_def toString_utf8_invalid_byte all_records_def all_types_def)

section \<open>ServiceType: parsing the serialized form\<close>

lemma js_split_no_sep: "sep \<notin> set p \<Longrightarrow> js_split sep p = [p]"
  by (induction p) auto

lemma js_split_append: "sep \<notin> set p \<Longrightarrow> js_split sep (p @ sep # rest) = p # js_split sep rest"
  by (induction p) auto

lemma js_split_join:
  "parts \<noteq> [] \<Longrightarrow> \<forall>p\<in>set parts. sep \<notin> set p \<Longrightarrow> js_split sep (js_join [sep] parts) = parts"
  by (induction "[sep]" parts rule: js_join.induct) (simp_all add: js_split_no_sep js_split_append)

lemma js_dot: "js ''.'' = [0x2E]"
  by (simp add: js_def)

lemma underscore_no_space: "\<not> is_white_space 0x5F"
  by (simp add: is_white_space_def)

lemma dropWhile_rev_last:
  "xs \<noteq> [] \<Longrightarrow> \<not> P (last xs) \<Longrightarrow> dropWhile P (rev xs) = rev xs"
  by (cases xs rule: rev_cases) simp_all

lemma trim_label:
  assumes "l = [] \<or> \<not> is_white_space (last l)"
  shows "trim (0x5F # l) = 0x5F # l"
proof -
  have "\<not> is_white_space (last (0x5F # l))"
    using assms underscore_no_space by auto
  then have "dropWhile is_white_space (rev (0x5F # l)) = rev (0x5F # l)"
    by (intro dropWhile_rev_last) simp_all
  then show ?thesis
    using underscore_no_space by (simp add: trim_def)
qed

lemma prepare_label:
  "good_label l \<Longrightarrow> strip_underscore (trim (0x5F # l)) = l"
  by (simp add: good_label_def trim_label strip_underscore_def)

lemma sub_label: "strip_underscore (trim (js ''_sub'')) = js ''sub''"
  by (simp add: js_def trim_def strip_underscore_def is_white_space_def)

lemma sub_has_no_dot: "0x2E \<notin> set (js ''_sub'')"
  by (simp add: js_def)

text \<open>
  C3, as the code has it: \<open>fromString\<close> returns the triple that \<open>toString\<close> serialized when
  no label of the triple contains a dot or ends in white space, and the first label of
  the serialized form is not \<open>sub\<close> (the subtype if there is one; without a subtype, the
  protocol must not be \<open>sub\<close> either). Name and protocol may even be empty.
\<close>

theorem fromString_toString:
  assumes "good_label name" "good_label protocol"
    and "case subtype of
           None \<Rightarrow> name \<noteq> js ''sub'' \<and> protocol \<noteq> js ''sub''
         | Some s \<Rightarrow> good_label s \<and> s \<noteq> js ''sub''"
  shows "fromString (toString \<lparr>st_name = Some name, st_protocol = Some protocol,
                               st_subtype = subtype\<rparr>)
         = Inr \<lparr>st_name = Some name, st_protocol = Some protocol, st_subtype = subtype\<rparr>"
proof (cases subtype)
  case None
  let ?parts = "[0x5F # name, 0x5F # protocol]"
  have split: "js_split 0x2E (js_join [0x2E] ?parts) = ?parts"
    using assms(1,2) by (intro js_split_join) (simp_all add: good_label_def)
  have nonempty: "js_join [0x2E] ?parts \<noteq> []" by simp
  show ?thesis
    using assms None nonempty split
    by (simp add: fromString_def toString_def js_dot prepare_label at_index_def Let_def
        del: js_join.simps)
next
  case (Some s)
  let ?parts = "[0x5F # s, js ''_sub'', 0x5F # name, 0x5F # protocol]"
  have split: "js_split 0x2E (js_join [0x2E] ?parts) = ?parts"
    using assms Some sub_has_no_dot by (intro js_split_join) (simp_all add: good_label_def)
  have nonempty: "js_join [0x2E] ?parts \<noteq> []" by simp
  show ?thesis
    using assms Some nonempty split
    by (simp add: fromString_def toString_def js_dot prepare_label sub_label at_index_def Let_def
        del: js_join.simps)
qed

theorem fromString_toString_witness:
  "good_label (js ''http'') \<and> good_label (js ''tcp'') \<and> good_label (js ''printer'')
   \<and> js ''printer'' \<noteq> js ''sub''
   \<and> fromString (js ''_printer._sub._http._tcp'')
       = Inr \<lparr>st_name = Some (js ''http''), st_protocol = Some (js ''tcp''),
              st_subtype = Some (js ''printer'')\<rparr>"
  using fromString_toString [of "js ''http''" "js ''tcp''" "Some (js ''printer'')"]
  by (simp add: good_label_def toString_def js_def is_white_space_def)

text \<open>
  C3 as stated fails: the triple with name \<open>a.b\<close> and protocol \<open>tcp\<close> serializes to
  \<open>_a.b._tcp\<close>, which parses to name \<open>a\<close> and protocol \<open>b\<close>.
\<close>

theorem fromString_toString_counterexample:
  "fromString (toString \<lparr>st_name = Some (js ''a.b''), st_protocol = Some (js ''tcp''),
                           st_subtype = None\<rparr>)
   = Inr \<lparr>st_name = Some (js ''a''), st_protocol = Some (js ''b''), st_subtype = None\<rparr>"
  by (simp add: fromString_def toString_def js_def trim_def strip_underscore_def
      is_white_space_def at_index_def Let_def)

text \<open>A name \<open>sub\<close> without a subtype is taken for the marker and refused.\<close>

lemma parse_sub_name:
  "fromString (toString \<lparr>st_name = Some (js ''sub''), st_protocol = Some (js ''tcp''),
                           st_subtype = None\<rparr>) = Inl SubFirst"
  by (simp add: fromString_def toString_def js_def trim_def strip_underscore_def
      is_white_space_def at_index_def Let_def)

section \<open>UTF-8: decoding what was encoded\<close>

lemma decode_two:
  "2 \<le> q \<Longrightarrow> q < 32 \<Longrightarrow> r < 64 \<Longrightarrow>
   utf8_decode None ((0xC0 + q) # (0x80 + r) # bs) = (q * 64 + r) # utf8_decode None bs"
  by (simp add: lead_byte_def in_range_def continuation_byte_def)

lemma decode_three:
  "q < 16 \<Longrightarrow> r < 64 \<Longrightarrow> s < 64 \<Longrightarrow> (q = 0 \<longrightarrow> 32 \<le> r) \<Longrightarrow> (q = 13 \<longrightarrow> r < 32) \<Longrightarrow>
   utf8_decode None ((0xE0 + q) # (0x80 + r) # (0x80 + s) # bs)
     = ((q * 64 + r) * 64 + s) # utf8_decode None bs"
  by (auto simp: lead_byte_def in_range_def continuation_byte_def)

lemma decode_four:
  "q < 5 \<Longrightarrow> r < 64 \<Longrightarrow> s < 64 \<Longrightarrow> t < 64 \<Longrightarrow> (q = 0 \<longrightarrow> 16 \<le> r) \<Longrightarrow> (q = 4 \<longrightarrow> r < 16) \<Longrightarrow>
   utf8_decode None ((0xF0 + q) # (0x80 + r) # (0x80 + s) # (0x80 + t) # bs)
     = (((q * 64 + r) * 64 + s) * 64 + t) # utf8_decode None bs"
  by (auto simp: lead_byte_def in_range_def continuation_byte_def)

lemma div4096: "(c::nat) div 4096 = c div 64 div 64"
  by (simp add: div_mult2_eq [symmetric])

lemma div262144: "(c::nat) div 262144 = c div 64 div 64 div 64"
  by (simp add: div_mult2_eq [symmetric])

lemma decode_bytes_1:
  assumes "c < 0x80"
  shows "utf8_decode None (utf8_bytes c @ bs) = c # utf8_decode None bs"
  using assms by (simp add: utf8_bytes_def lead_byte_def)

lemma decode_bytes_2:
  assumes "0x80 \<le> c" "c < 0x800"
  shows "utf8_decode None (utf8_bytes c @ bs) = c # utf8_decode None bs"
proof -
  define q where "q = c div 64"
  define r where "r = c mod 64"
  have c: "q * 64 + r = c" by (simp add: q_def r_def)
  have "r < 64" by (simp add: r_def)
  moreover have "2 \<le> q" "q < 32" using assms c \<open>r < 64\<close> by linarith+
  ultimately have "utf8_decode None ((0xC0 + q) # (0x80 + r) # bs) = (q * 64 + r) # utf8_decode None bs"
    by (intro decode_two)
  then show ?thesis using assms by (simp add: utf8_bytes_def q_def r_def)
qed

lemma decode_bytes_3:
  assumes "0x800 \<le> c" "c < 0x10000" "\<not> is_surrogate c"
  shows "utf8_decode None (utf8_bytes c @ bs) = c # utf8_decode None bs"
proof -
  define s where "s = c mod 64"
  define r where "r = c div 64 mod 64"
  define q where "q = c div 64 div 64"
  define d where "d = c div 64"
  have d: "d * 64 + s = c" by (simp add: d_def s_def)
  have q: "q * 64 + r = d" by (simp add: d_def q_def r_def)
  have b: "s < 64" "r < 64" by (simp_all add: r_def s_def)
  have "q < 16" using assms d q b by linarith
  moreover have "q = 0 \<longrightarrow> 32 \<le> r" using assms d q b by linarith
  moreover have "q = 13 \<longrightarrow> r < 32" using assms d q b unfolding is_surrogate_def by linarith
  ultimately have "utf8_decode None ((0xE0 + q) # (0x80 + r) # (0x80 + s) # bs)
     = ((q * 64 + r) * 64 + s) # utf8_decode None bs"
    using b by (intro decode_three)
  then show ?thesis using assms d q
    by (simp add: utf8_bytes_def div4096 q_def r_def s_def d_def)
qed

lemma decode_bytes_4:
  assumes "0x10000 \<le> c" "c < 0x110000"
  shows "utf8_decode None (utf8_bytes c @ bs) = c # utf8_decode None bs"
proof -
  define t where "t = c mod 64"
  define d where "d = c div 64"
  define s where "s = d mod 64"
  define e where "e = d div 64"
  define r where "r = e mod 64"
  define q where "q = e div 64"
  have d: "d * 64 + t = c" by (simp add: d_def t_def)
  have e: "e * 64 + s = d" by (simp add: e_def s_def)
  have q: "q * 64 + r = e" by (simp add: q_def r_def)
  have b: "t < 64" "s < 64" "r < 64" by (simp_all add: r_def s_def t_def)
  have "q < 5" using assms d e q b by linarith
  moreover have "q = 0 \<longrightarrow> 16 \<le> r" using assms d e q b by linarith
  moreover have "q = 4 \<longrightarrow> r < 16" using assms d e q b by linarith
  ultimately have "utf8_decode None ((0xF0 + q) # (0x80 + r) # (0x80 + s) # (0x80 + t) # bs)
     = (((q * 64 + r) * 64 + s) * 64 + t) # utf8_decode None bs"
    using b by (intro decode_four)
  then show ?thesis using assms d e q
    by (simp add: utf8_bytes_def div4096 div262144 q_def r_def s_def t_def d_def e_def)
qed

text \<open>The decoder reads the bytes of one scalar value back as that value.\<close>

lemma decode_bytes:
  "scalar c \<Longrightarrow> utf8_decode None (utf8_bytes c @ bs) = c # utf8_decode None bs"
  using decode_bytes_1 [of c bs] decode_bytes_2 [of c bs] decode_bytes_3 [of c bs]
    decode_bytes_4 [of c bs]
  by (cases "c < 0x80"; cases "c < 0x800"; cases "c < 0x10000") (simp_all add: scalar_def)

lemma decode_encode_code_points:
  "\<forall>c\<in>set cs. scalar c \<Longrightarrow> utf8_decode None (concat (map utf8_bytes cs)) = cs"
  by (induction cs) (simp_all add: decode_bytes)

lemma scalar_lone_unit: "u < 0x10000 \<Longrightarrow> scalar (lone_unit u)"
  by (simp add: scalar_def lone_unit_def replacement_def is_surrogate_def)

lemma scalar_surrogate_pair:
  "is_high_surrogate u \<Longrightarrow> is_low_surrogate v \<Longrightarrow> scalar (surrogate_pair u v)"
  unfolding scalar_def surrogate_pair_def is_high_surrogate_def is_low_surrogate_def
    is_surrogate_def
  by linarith

lemma scalar_code_points:
  "\<forall>u\<in>set us. u < 0x10000 \<Longrightarrow> \<forall>c\<in>set (code_points us). scalar c"
  by (induction us rule: code_points.induct) (simp_all add: scalar_lone_unit scalar_surrogate_pair)

lemma utf16_units_pair:
  assumes "is_high_surrogate u" "is_low_surrogate v"
  shows "utf16_units (surrogate_pair u v) = [u, v]"
proof -
  define a where "a = u - 0xD800"
  define b where "b = v - 0xDC00"
  have u: "u = 0xD800 + a" and v: "v = 0xDC00 + b" and "b < 0x400"
    using assms unfolding a_def b_def is_high_surrogate_def is_low_surrogate_def
    by linarith+
  then have "(a * 0x400 + b) div 0x400 = a" "(a * 0x400 + b) mod 0x400 = b"
    by simp_all
  then show ?thesis
    by (simp add: utf16_units_def surrogate_pair_def u v)
qed

lemma utf16_units_lone: "\<not> is_surrogate u \<Longrightarrow> u < 0x10000 \<Longrightarrow> utf16_units (lone_unit u) = [u]"
  by (simp add: utf16_units_def lone_unit_def)

lemma units_code_points:
  "well_formed us \<Longrightarrow> \<forall>u\<in>set us. u < 0x10000 \<Longrightarrow>
   concat (map utf16_units (code_points us)) = us"
  by (induction us rule: code_points.induct)
    (auto simp: utf16_units_pair utf16_units_lone split: if_splits)

lemma utf8_bytes_bound: "c < 0x110000 \<Longrightarrow> \<forall>b\<in>set (utf8_bytes c). b < 256"
proof -
  assume c: "c < 0x110000"
  have m: "\<And>x::nat. x mod 64 < 64" by simp
  have "c div 64 < 17408" "c div 4096 < 272" "c div 262144 < 5"
    using c by (simp_all add: div_less_iff_less_mult)
  moreover have "c < 0x800 \<Longrightarrow> c div 64 < 32" "c < 0x10000 \<Longrightarrow> c div 4096 < 16"
    by (simp_all add: div_less_iff_less_mult)
  ultimately show ?thesis
    using m [of c] m [of "c div 64"] m [of "c div 4096"]
    by (auto simp: utf8_bytes_def)
qed

lemma utf8_encode_bound:
  "\<forall>u\<in>set us. u < 0x10000 \<Longrightarrow> \<forall>b\<in>set (utf8_encode us). b < 256"
  using scalar_code_points [of us] utf8_bytes_bound
  by (auto simp: utf8_encode_def scalar_def)

lemma unat_of_nat_bytes:
  "\<forall>b\<in>set bs. b < 256 \<Longrightarrow> map unat (map of_nat bs :: 8 word list) = bs"
  by (induction bs) (simp_all add: unat_of_nat)

lemma unat_units: "\<forall>u\<in>set (map unat (s :: jsstring)). u < 0x10000"
proof
  fix u assume "u \<in> set (map unat s)"
  then obtain w :: "16 word" where "u = unat w" by auto
  moreover have "unat w < 2 ^ LENGTH(16)" by (rule unsigned_less)
  ultimately show "u < 0x10000" by simp
qed

text \<open>Decoding the UTF-8 encoding of a well-formed string gives the string back.\<close>

lemma toString_utf8_Buffer_from:
  assumes "well_formed_string v"
  shows "toString_utf8 (Buffer_from v) = v"
proof -
  let ?us = "map unat v"
  have b: "\<forall>u\<in>set ?us. u < 0x10000" by (rule unat_units)
  have "map unat (Buffer_from v) = utf8_encode ?us"
    unfolding Buffer_from_def by (rule unat_of_nat_bytes) (rule utf8_encode_bound [OF b])
  moreover have "utf8_decode None (utf8_encode ?us) = code_points ?us"
    unfolding utf8_encode_def by (rule decode_encode_code_points) (rule scalar_code_points [OF b])
  moreover have "concat (map utf16_units (code_points ?us)) = ?us"
    using assms b by (simp add: well_formed_string_def units_code_points)
  ultimately show ?thesis
    by (simp add: toString_utf8_def comp_def)
qed

section \<open>The TXT codec\<close>

lemma decode_single: "decode item binary = [(item_key item, item_value item binary)]"
  by (simp add: decode_def item_key_def item_value_def Let_def split: option.splits)

lemma decodeTXT_step_assign:
  "decodeTXT_step binary result item = assign result (item_key item) (item_value item binary)"
  by (simp add: decodeTXT_step_def decode_single)

lemma item_value_string: "\<exists>s. item_value item False = DString s"
  by (simp add: item_value_def decode_def Let_def split: option.splits)

lemma decodeTXT_loop_append:
  "decodeTXT_loop binary result (xs @ ys) =
     (case decodeTXT_loop binary result xs of
        Returns result' \<Rightarrow> decodeTXT_loop binary result' ys
      | PrototypeReplaced \<Rightarrow> PrototypeReplaced)"
  by (induction xs arbitrary: result) (simp_all split: outcome.splits)

lemma decodeTXT_loop_other:
  "\<forall>i\<in>set items. item_key i \<noteq> key \<Longrightarrow>
   decodeTXT_loop binary result items = Returns result' \<Longrightarrow> result' key = result key"
proof (induction items arbitrary: result)
  case Nil
  then show ?case by simp
next
  case (Cons i items)
  from Cons.prems(2) obtain r where
    step: "decodeTXT_step binary result i = Returns r"
    and rest: "decodeTXT_loop binary r items = Returns result'"
    by (auto split: outcome.splits)
  have "r key = result key"
    using step Cons.prems(1)
    by (auto simp: decodeTXT_step_assign assign_def split: if_splits txt_decoded.splits)
  moreover have "result' key = r key"
    using Cons.prems(1) rest by (intro Cons.IH) simp_all
  ultimately show ?case by simp
qed

text \<open>Reading strings, \<open>decodeTXT\<close> returns an object for every input.\<close>

lemma decodeTXT_loop_returns: "\<exists>result'. decodeTXT_loop False result items = Returns result'"
proof (induction items arbitrary: result)
  case Nil
  then show ?case by simp
next
  case (Cons i items)
  obtain s where "item_value i False = DString s"
    using item_value_string by blast
  then have "\<exists>r. decodeTXT_step False result i = Returns r"
    by (simp add: decodeTXT_step_assign assign_def)
  then obtain r where "decodeTXT_step False result i = Returns r" ..
  then show ?case using Cons.IH [of r] by simp
qed

text \<open>
  What the loop does for every other key: an item whose key is not \<open>__proto__\<close> binds it,
  replacing what earlier items bound, and later items with other keys leave the binding
  alone.
\<close>

lemma last_item_wins:
  assumes "item_key item = key" "\<forall>i\<in>set later. item_key i \<noteq> key"
    and "key \<noteq> js ''__proto__''"
    and "decodeTXT (TxtArray (earlier @ item # later)) binary = Returns result"
  shows "result key = Some (item_value item binary)"
proof -
  from assms(4) obtain r where
    "decodeTXT_loop binary Map.empty earlier = Returns r"
    and rest: "decodeTXT_loop binary r (item # later) = Returns result"
    by (auto simp: decodeTXT_def decodeTXT_loop_append split: outcome.splits)
  from rest obtain r' where
    step: "decodeTXT_step binary r item = Returns r'"
    and later: "decodeTXT_loop binary r' later = Returns result"
    by (auto split: outcome.splits)
  have "r' key = Some (item_value item binary)"
    using step assms(1,3) by (auto simp: decodeTXT_step_assign assign_def)
  moreover have "result key = r' key"
    using assms(2) later by (rule decodeTXT_loop_other)
  ultimately show ?thesis by simp
qed

lemma last_item_wins_example:
  "decodeTXT (TxtArray [ItemString (js ''a=1''), ItemString (js ''a=2''),
                        ItemString (js ''b=3'')]) False
     = Returns [js ''a'' \<mapsto> DString (js ''2''), js ''b'' \<mapsto> DString (js ''3'')]"
  by (simp add: decodeTXT_def decodeTXT_step_def decode_def Buffer_from_def
      toString_utf8_def toString_ascii_def utf8_encode_def utf8_bytes_def lone_unit_def
      is_surrogate_def is_high_surrogate_def lead_byte_def utf16_units_def assign_def js_def
      Let_def)

lemma code_points_Cons: "\<not> is_surrogate u \<Longrightarrow> code_points (u # us) = u # code_points us"
  by (cases us) (auto simp: lone_unit_def is_surrogate_def is_high_surrogate_def)

lemma utf8_encode_ascii:
  "\<forall>u\<in>set k. u < 0x80 \<Longrightarrow> utf8_encode (k @ us) = k @ utf8_encode us"
proof (induction k)
  case Nil
  then show ?case by simp
next
  case (Cons u k)
  then have "\<not> is_surrogate u" by (simp add: is_surrogate_def)
  then show ?case using Cons
    by (simp add: code_points_Cons utf8_encode_def utf8_bytes_def)
qed

lemma unat_ascii: "(c :: 16 word) < 0x80 \<Longrightarrow> unat c < 0x80"
  by (simp add: word_less_nat_alt)

lemma js_eq: "js ''='' = [0x3D]"
  by (simp add: js_def)

lemma Buffer_from_key_value:
  assumes "\<forall>c\<in>set key. c < 0x80"
  shows "Buffer_from (key @ js ''='' @ v) = map ucast key @ 0x3D # Buffer_from v"
proof -
  have "\<forall>u\<in>set (map unat key @ [0x3D]). u < 0x80"
    using assms by (auto simp: unat_ascii)
  then have "utf8_encode ((map unat key @ [0x3D]) @ map unat v)
               = (map unat key @ [0x3D]) @ utf8_encode (map unat v)"
    by (rule utf8_encode_ascii)
  then show ?thesis
    by (simp add: Buffer_from_def js_eq comp_def)
qed

lemma mask7: "(0x7F :: 8 word) = mask 7"
  by (simp add: mask_eq_exp_minus_1)

lemma ascii_mask: "(c :: 16 word) < 0x80 \<Longrightarrow> ucast ((ucast c :: 8 word) AND 0x7F) = c"
proof -
  assume "c < 0x80"
  then have "c < 2 ^ 7" by simp
  then have "c AND mask 7 = c" by (rule less_mask_eq)
  then have t: "take_bit 7 c = c" by (simp add: take_bit_eq_mask)
  have "ucast ((ucast c :: 8 word) AND mask 7) = take_bit 7 c"
    by (rule bit_word_eqI) (auto simp: bit_simps)
  then show ?thesis using t by (simp add: mask7)
qed

lemma toString_ascii_key:
  "\<forall>c\<in>set key. c < 0x80 \<Longrightarrow>
   toString_ascii (map ucast key @ 0x3D # rest) = key @ 0x3D # toString_ascii rest"
  by (induction key) (simp_all add: toString_ascii_def ascii_mask)

lemma indexOf_append:
  "x \<notin> set xs \<Longrightarrow> indexOf (xs @ x # ys) x = Some (length xs)"
  by (induction xs) auto

text \<open>An encoded entry decodes to its key and value.\<close>

lemma decode_encoded:
  assumes "ascii_key key" "well_formed_string v"
  shows "decode (ItemBuffer (Buffer_from (key @ js ''='' @ v))) False = [(key, DString v)]"
proof -
  have k: "\<forall>c\<in>set key. c < 0x80" and e: "0x3D \<notin> set key"
    using assms(1) by (auto simp: ascii_key_def)
  show ?thesis
    using indexOf_append [OF e] toString_utf8_Buffer_from [OF assms(2)]
    by (simp add: decode_def Buffer_from_key_value [OF k] toString_ascii_key [OF k] Let_def)
qed


lemma step_encoded:
  assumes "ascii_key key" "well_formed_string v" "key \<noteq> js ''__proto__''"
  shows "decodeTXT_step False result (ItemBuffer (Buffer_from (key @ js ''='' @ v)))
         = Returns (result(key \<mapsto> DString v))"
  using assms by (simp add: decodeTXT_step_def decode_encoded assign_def)

lemma loop_encoded:
  assumes "\<forall>(key, value)\<in>set m.
             ascii_key key \<and> key \<noteq> js ''__proto__'' \<and> well_formed_string value"
  shows "decodeTXT_loop False result
           (map ItemBuffer (encodeTXT (map (\<lambda>(key, value). (key, VString value)) m)))
         = Returns (foldl (\<lambda>r (key, value). r(key \<mapsto> DString value)) result m)"
  using assms
  by (induction m arbitrary: result) (auto simp: encodeTXT_def step_encoded)

lemma foldl_update_map_of:
  "distinct (map fst m) \<Longrightarrow>
   foldl (\<lambda>r (key, value). r(key \<mapsto> g value)) result m
     = result ++ map_of (map (\<lambda>(key, value). (key, g value)) m)"
proof (induction m arbitrary: result)
  case Nil
  then show ?case by simp
next
  case (Cons kv m)
  obtain k v where kv: "kv = (k, v)" by (cases kv)
  let ?M = "map_of (map (\<lambda>(key, value). (key, g value)) m)"
  have "k \<notin> fst ` set m" and d: "distinct (map fst m)" using Cons.prems kv by simp_all
  then have "?M k = None"
    by (force simp: map_of_eq_None_iff)
  then have swap: "result(k \<mapsto> g v) ++ ?M = (result ++ ?M)(k \<mapsto> g v)"
    by (auto simp: map_add_def fun_eq_iff split: option.splits)
  have "foldl (\<lambda>r (key, value). r(key \<mapsto> g value)) result (kv # m)
          = foldl (\<lambda>r (key, value). r(key \<mapsto> g value)) (result(k \<mapsto> g v)) m"
    unfolding kv by simp
  also have "\<dots> = result(k \<mapsto> g v) ++ ?M"
    by (rule Cons.IH [OF d])
  also have "\<dots> = (result ++ ?M)(k \<mapsto> g v)"
    by (rule swap)
  also have "\<dots> = result ++ map_of (map (\<lambda>(key, value). (key, g value)) (kv # m))"
    unfolding kv by simp
  finally show ?case .
qed

text \<open>
  C4, as the code has it: for every TXT map \<open>m\<close> whose values are well-formed strings and
  whose keys are non-empty strings of ASCII characters other than \<open>=\<close>, and not the
  property name \<open>__proto__\<close>, \<open>decodeTXT(encodeTXT(m), false)\<close> is the mapping \<open>m\<close>. The
  keys of an object are distinct.
\<close>

theorem decodeTXT_encodeTXT:
  assumes "distinct (map fst m)"
    and "\<forall>(key, value)\<in>set m.
           key \<noteq> [] \<and> ascii_key key \<and> key \<noteq> js ''__proto__'' \<and> well_formed_string value"
  shows "decodeTXT (TxtArray (map ItemBuffer
                      (encodeTXT (map (\<lambda>(key, value). (key, VString value)) m)))) False
         = Returns (map_of (map (\<lambda>(key, value). (key, DString value)) m))"
proof -
  have "\<forall>(key, value)\<in>set m.
          ascii_key key \<and> key \<noteq> js ''__proto__'' \<and> well_formed_string value"
    using assms(2) by auto
  then show ?thesis
    using foldl_update_map_of [OF assms(1), of DString Map.empty]
    by (simp add: decodeTXT_def loop_encoded)
qed

theorem decodeTXT_encodeTXT_witness:
  "distinct (map fst [(js ''path'', js ''/api''), (js ''version'', js ''1.0'')])
   \<and> js ''path'' \<noteq> [] \<and> js ''version'' \<noteq> []
   \<and> ascii_key (js ''path'') \<and> ascii_key (js ''version'')
   \<and> js ''path'' \<noteq> js ''__proto__'' \<and> js ''version'' \<noteq> js ''__proto__''
   \<and> well_formed_string (js ''/api'') \<and> well_formed_string (js ''1.0'')
   \<and> decodeTXT (TxtArray (map ItemBuffer
                    (encodeTXT [(js ''path'', VString (js ''/api'')),
                                (js ''version'', VString (js ''1.0''))]))) False
       = Returns (map_of [(js ''path'', DString (js ''/api'')),
                          (js ''version'', DString (js ''1.0''))])"
  using decodeTXT_encodeTXT [of "[(js ''path'', js ''/api''), (js ''version'', js ''1.0'')]"]
  by (simp add: js_def ascii_key_def well_formed_string_def is_surrogate_def
      is_high_surrogate_def)

text \<open>
  C4 as stated fails: the key \<open>U+00E9\<close> has no \<open>=\<close>; its UTF-8 bytes \<open>C3 A9\<close> read as
  ASCII are \<open>C)\<close>, so the decoded object has the key \<open>C)\<close> and not the original key.
\<close>

theorem decodeTXT_encodeTXT_counterexample:
  "decodeTXT (TxtArray (map ItemBuffer (encodeTXT [([0xE9], VString (js ''v''))]))) False
     = Returns [js ''C)'' \<mapsto> DString (js ''v'')]
   \<and> decodeTXT (TxtArray (map ItemBuffer (encodeTXT [([0xE9], VString (js ''v''))]))) False
     \<noteq> Returns (map_of [([0xE9], DString (js ''v''))])"
proof -
  have decoded:
    "decodeTXT (TxtArray (map ItemBuffer (encodeTXT [([0xE9], VString (js ''v''))]))) False
       = Returns [js ''C)'' \<mapsto> DString (js ''v'')]"
    by (simp add: decodeTXT_def decodeTXT_step_def decode_def encodeTXT_def Buffer_from_def
        toString_utf8_def toString_ascii_def utf8_encode_def utf8_bytes_def lone_unit_def
        is_surrogate_def is_high_surrogate_def lead_byte_def utf16_units_def assign_def js_def
        Let_def)
  have "[js ''C)'' \<mapsto> DString (js ''v'')] [0xE9] = None"
    by (simp add: js_def)
  moreover have "map_of [([0xE9 :: 16 word], DString (js ''v''))] [0xE9] \<noteq> None"
    by simp
  ultimately have "[js ''C)'' \<mapsto> DString (js ''v'')] \<noteq> map_of [([0xE9], DString (js ''v''))]"
    by metis
  with decoded show ?thesis by simp
qed

text \<open>
  C5 does not hold of the code: \<open>decode\<close> always returns one entry, so the test
  \<open>entries.length === 1\<close> discards nothing. The item \<open>=x\<close> and the empty item both bind the
  empty string as a key, in either mode.
\<close>

theorem decodeTXT_empty_key:
  "decodeTXT (TxtArray [ItemBuffer [0x3D, 0x78]]) False = Returns [[] \<mapsto> DString (js ''x'')]
   \<and> decodeTXT (TxtArray [ItemBuffer []]) False = Returns [[] \<mapsto> DString []]
   \<and> decodeTXT (TxtSingle (ItemString (js ''=x''))) True = Returns [[] \<mapsto> DBuffer [0x78]]"
  by (simp add: decodeTXT_def decodeTXT_step_def decode_def Buffer_from_def
      toString_utf8_def toString_ascii_def utf8_encode_def utf8_bytes_def lone_unit_def
      is_surrogate_def is_high_surrogate_def lead_byte_def utf16_units_def assign_def js_def
      Let_def)

text \<open>
  In binary mode an item with the key \<open>__proto__\<close> makes its Buffer the prototype of the
  object under construction.
\<close>

lemma decodeTXT_binary_proto:
  "decodeTXT (TxtArray [ItemString (js ''__proto__=a''), ItemString (js ''5=x'')]) True
     = PrototypeReplaced"
  by (simp add: decodeTXT_def decodeTXT_step_def decode_def Buffer_from_def
      toString_utf8_def toString_ascii_def utf8_encode_def utf8_bytes_def lone_unit_def
      is_surrogate_def is_high_surrogate_def lead_byte_def utf16_units_def assign_def js_def
      Let_def)

text \<open>
  C9 does not hold of the code: \<open>result[key] = value\<close> overwrites the binding of every
  other key (lemma \<open>last_item_wins\<close>), but it binds nothing for the key \<open>__proto__\<close>. Both
  items of \<open>['__proto__=a', '__proto__=b']\<close> decode to that key, and the object returned
  has no property of its own: the key is not bound to the value \<open>b\<close> of the last item.
\<close>

theorem decodeTXT_proto_not_bound:
  "item_key (ItemString (js ''__proto__=a'')) = js ''__proto__''
   \<and> item_key (ItemString (js ''__proto__=b'')) = js ''__proto__''
   \<and> item_value (ItemString (js ''__proto__=b'')) False = DString (js ''b'')
   \<and> decodeTXT (TxtArray [ItemString (js ''__proto__=a''), ItemString (js ''__proto__=b'')])
        False = Returns Map.empty"
  by (simp add: item_key_def item_value_def decodeTXT_def decodeTXT_step_def decode_def
      Buffer_from_def toString_utf8_def toString_ascii_def utf8_encode_def utf8_bytes_def
      lone_unit_def is_surrogate_def is_high_surrogate_def lead_byte_def utf16_units_def
      assign_def js_def Let_def)

section \<open>Registry: announce\<close>

text \<open>The constructor builds the example service, not yet attached and not yet started.\<close>

lemma new_Service_example:
  "new_Service (js ''host'') example_options
   = Inr (example_service\<lparr>s_started := False, s_registry := False\<rparr>)"
  by (simp add: new_Service_def example_options_def example_service_def or_default_def
      toString_def js_def TLD_def Let_def)

lemma announce_sent_flags [simp]:
  "s_started (announce_sent s) = s_started s"
  "s_destroyed (announce_sent s) = s_destroyed s"
  "announce_sent (announce_sent s) = announce_sent s"
  by (simp_all add: announce_sent_def)

lemma broadcast_again:
  assumes "s_started s" "\<not> s_destroyed s" "d * 3 < 3600000"
  shows "broadcast \<lparr>an_service = s, an_delay = d, an_clock = c, an_transmissions = ts\<rparr> =
         broadcast \<lparr>an_service = announce_sent s, an_delay = d * 3, an_clock = c + d * 3,
                    an_transmissions = ts @ [c]\<rparr>"
  using assms
  by (subst broadcast.simps) (simp add: Let_def REANNOUNCE_MAX_MS_def REANNOUNCE_FACTOR_def)

lemma broadcast_last:
  assumes "s_started s" "\<not> s_destroyed s" "\<not> d * 3 < 3600000"
  shows "broadcast \<lparr>an_service = s, an_delay = d, an_clock = c, an_transmissions = ts\<rparr> =
         Some \<lparr>an_service = announce_sent s, an_delay = d * 3, an_clock = c,
               an_transmissions = ts @ [c]\<rparr>"
  using assms
  by (subst broadcast.simps) (simp add: Let_def REANNOUNCE_MAX_MS_def REANNOUNCE_FACTOR_def)

text \<open>A service that is stopped or destroyed is not transmitted.\<close>

lemma broadcast_idle:
  assumes "\<not> s_started (an_service a) \<or> s_destroyed (an_service a)"
  shows "broadcast a = Some a"
  using assms by (subst broadcast.simps) simp

lemma broadcast_from_1000:
  assumes "s_started service" "\<not> s_destroyed service"
  shows "broadcast \<lparr>an_service = service, an_delay = 1000, an_clock = now, an_transmissions = []\<rparr>
         = Some \<lparr>an_service = announce_sent service, an_delay = 6561000,
                 an_clock = now + 3279000,
                 an_transmissions = [now, now + 3000, now + 12000, now + 39000, now + 120000,
                                     now + 363000, now + 1092000, now + 3279000]\<rparr>"
  using assms by (simp add: broadcast_again broadcast_last)

lemma waits_example:
  "waits [now, now + 3000, now + 12000, now + 39000, now + 120000,
          now + 363000, now + 1092000, now + 3279000]
   = [3000, 9000, 27000, 81000, 243000, 729000, 2187000]"
  by (simp add: waits_def)

text \<open>
  C2, as the code has it: for a service that stays started and not destroyed, \<open>announce\<close>
  returns; the record set is transmitted at once, and the waits between consecutive
  transmissions are 3000 ms, 9000 ms, 27000 ms, ..., each three times the one before and
  the first three times the initial delay of 1000 ms. Nothing is scheduled once the
  delay has reached \<open>REANNOUNCE_MAX_MS\<close>: there are eight transmissions, the last wait is
  2187000 ms, and the delay ends at 6561000 ms. The service is published.
\<close>

theorem announce_backoff:
  assumes "s_started service" "\<not> s_destroyed service"
  shows "\<exists>a. fst (announce ifaces now service srv) = Some a
             \<and> an_transmissions a = [now, now + 3000, now + 12000, now + 39000, now + 120000,
                                      now + 363000, now + 1092000, now + 3279000]
             \<and> waits (an_transmissions a) = [3000, 9000, 27000, 81000, 243000, 729000, 2187000]
             \<and> an_delay a = 6561000 \<and> REANNOUNCE_MAX_MS \<le> an_delay a
             \<and> s_published (an_service a)"
  using assms
  by (simp add: announce_def Let_def broadcast_from_1000 waits_example REANNOUNCE_MAX_MS_def
      announce_sent_def)

theorem announce_backoff_witness:
  "s_started example_service \<and> \<not> s_destroyed example_service
   \<and> map_option (\<lambda>a. length (an_transmissions a))
        (fst (announce [] 0 example_service example_server)) = Some 8"
  using announce_backoff [of example_service "[]" 0 example_server]
  by (auto simp: example_service_def)

text \<open>C2 as stated fails: the first wait is 3000 ms, not 1000 ms.\<close>

theorem announce_first_wait_counterexample:
  "map_option (\<lambda>a. waits (an_transmissions a)) (fst (announce [] 0 example_service example_server))
   = Some [3000, 9000, 27000, 81000, 243000, 729000, 2187000]"
  by (simp add: announce_def Let_def broadcast_from_1000 waits_def example_service_def)

section \<open>Registry: probe\<close>








lemma nameEquals_examples:
  "nameEquals (js ''Foo-Bar.local'') (js ''fOO-bAR.LOCAL'')
   \<and> \<not> nameEquals (js ''Foo-Bar.local'') (js ''Foo_Bar.local'')
   \<and> \<not> nameEquals (js ''@'') (js ''`'')
   \<and> \<not> nameEquals (js ''['') (js ''{'')
   \<and> \<not> nameEquals [0xC9] [0xE9]
   \<and> \<not> nameEquals (js ''local'') (js ''local.'')"
  by (simp add: nameEquals_def toLowerAZ_def js_def)



section \<open>Service.stop and goodbye\<close>

lemma stop_not_published:
  assumes "s_started s" "\<not> s_published s"
  shows "stop ifaces s srv = (s\<lparr>s_started := False\<rparr>, srv)"
  using assms by (simp add: stop_def onServiceStop_def goodbye_def Let_def)

lemma getRecords_nonempty: "getRecords ifaces s \<noteq> []"
  by (simp add: getRecords_def)

lemma stop_published:
  assumes "s_started s" "s_published s" "s_registry s"
  shows "stop ifaces s srv =
           (s\<lparr>s_started := False, s_published := False, s_emitted := s_emitted s @ [Down]\<rparr>,
            srv\<lparr>typeToRecords :=
                   unregister (map (\<lambda>record. record\<lparr>r_ttl := Some 0\<rparr>) (getRecords ifaces s))
                              (typeToRecords srv),
                 responses := responses srv
                   @ [map (\<lambda>record. record\<lparr>r_ttl := Some 0\<rparr>) (getRecords ifaces s)]\<rparr>)"
proof -
  have "address_records (s\<lparr>s_started := False\<rparr>) = address_records s"
    by (rule ext) (simp add: address_records_def getRecordA_def getRecordAAAA_def)
  then have "getRecords ifaces (s\<lparr>s_started := False\<rparr>) = getRecords ifaces s"
    by (simp add: getRecords_def getRecordPTR_def getRecordSRV_def getRecordTXT_def
        getRecordPTRServiceTypeEnumeration_def getRecordPTRSubtype_def)
  then show ?thesis
    using assms getRecords_nonempty [of ifaces s]
    by (simp add: stop_def onServiceStop_def goodbye_def Let_def)
qed

text \<open>
  \<open>stop\<close> on a started service: it emits nothing and leaves \<open>published\<close> false when the
  service is not published; when it is published (by the registry it is attached to),
  it emits \<open>down\<close> once and sets \<open>published\<close> to false.
\<close>

lemma stop_started:
  assumes "s_started s"
  shows "(\<not> s_published s \<longrightarrow>
            s_emitted (fst (stop ifaces s srv)) = s_emitted s
            \<and> s_published (fst (stop ifaces s srv)) = False)
         \<and> (s_published s \<and> s_registry s \<longrightarrow>
              s_emitted (fst (stop ifaces s srv)) = s_emitted s @ [Down]
              \<and> s_published (fst (stop ifaces s srv)) = False)"
  using assms by (simp add: stop_not_published stop_published)

lemma stop_started_example:
  "s_emitted (fst (stop [] example_service example_server)) = []
   \<and> s_emitted (fst (stop [] (announce_sent example_service) example_server)) = [Up, Down]
   \<and> \<not> s_published (fst (stop [] (announce_sent example_service) example_server))"
proof -
  have "s_started (announce_sent example_service)" "s_published (announce_sent example_service)"
    "s_registry (announce_sent example_service)"
    "s_emitted (announce_sent example_service) = [Up]"
    by (simp_all add: announce_sent_def example_service_def)
  moreover have "s_started example_service" "\<not> s_published example_service"
    "s_emitted example_service = []"
    by (simp_all add: example_service_def)
  ultimately show ?thesis
    by (simp add: stop_not_published stop_published)
qed

text \<open>On a service that is not started, \<open>stop\<close> does nothing.\<close>

lemma stop_not_started: "\<not> s_started s \<Longrightarrow> stop ifaces s srv = (s, srv)"
  by (simp add: stop_def)

lemma announce_registers:
  "snd (announce ifaces now service srv)
     = srv\<lparr>typeToRecords := register (getRecords ifaces service) (typeToRecords srv)\<rparr>"
  by (simp add: announce_def Let_def)

text \<open>
  C8 does not hold of the code. \<open>announce\<close> registers the records of the started example
  service, and \<open>broadcast\<close> passes its guard and hands them to \<open>mdns.respond\<close>. \<open>stop\<close> runs
  before the callback of that call: the service is not published, so nothing is sent or
  unregistered. The callback then runs and, without looking at \<open>started\<close>, publishes the
  service and emits \<open>up\<close>. The service is now in the published state, and \<open>stop\<close> on it
  emits no \<open>down\<close>, leaves \<open>published\<close> true, and leaves its records in the table of the
  Responder.
\<close>

theorem stop_leaves_service_published:
  "s_started example_service \<and> \<not> s_destroyed example_service
   \<and> (let srv = snd (announce [] 0 example_service example_server);
          stopped = stop [] example_service srv;
          sent = announce_sent (fst stopped);
          stopped' = stop [] sent (snd stopped)
      in s_published sent \<and> s_emitted sent = [Up]
         \<and> s_published (fst stopped') \<and> s_emitted (fst stopped') = [Up]
         \<and> responses (snd stopped') = []
         \<and> typeToRecords (snd stopped') = register (getRecords [] example_service) Map.empty
         \<and> getRecordSRV example_service
             \<in> set (get_or_empty (typeToRecords (snd stopped')) SRV))"
proof -
  let ?srv = "example_server\<lparr>typeToRecords := register (getRecords [] example_service) Map.empty\<rparr>"
  have srv: "snd (announce [] 0 example_service example_server) = ?srv"
    by (simp add: announce_registers example_server_def)
  have "s_started example_service" "\<not> s_published example_service"
    by (simp_all add: example_service_def)
  then have 1: "stop [] example_service ?srv = (example_service\<lparr>s_started := False\<rparr>, ?srv)"
    by (simp add: stop_not_published)
  have 2: "announce_sent (example_service\<lparr>s_started := False\<rparr>)
             = example_service\<lparr>s_started := False, s_published := True, s_emitted := [Up]\<rparr>"
    by (simp add: announce_sent_def example_service_def)
  have 3: "stop [] (example_service\<lparr>s_started := False, s_published := True, s_emitted := [Up]\<rparr>)
             ?srv
           = (example_service\<lparr>s_started := False, s_published := True, s_emitted := [Up]\<rparr>, ?srv)"
    by (simp add: stop_not_started)
  have srv_rec: "getRecordSRV example_service
          \<in> set (get_or_empty (register (getRecords [] example_service) Map.empty) SRV)"
    by (simp add: register_def register_one_def get_or_empty_def isDuplicate_def
        getRecords_def getRecordPTR_def getRecordSRV_def getRecordTXT_def
        getRecordPTRServiceTypeEnumeration_def getRecordPTRSubtype_def address_records_def
        example_service_def Let_def)
  show ?thesis
    unfolding srv Let_def 1 fst_conv snd_conv 2 3
    using srv_rec by (simp add: example_service_def example_server_def)
qed

section \<open>Browser.start\<close>

text \<open>
  The first \<open>start\<close> of the example browser registers one listener and asks one PTR
  question.
\<close>

lemma start_example:
  "start example_browser =
     example_browser\<lparr>b_onresponse := True, b_listeners := 1,
                      b_queries := [(js ''_http._tcp.local'', PTR)]\<rparr>"
  by (simp add: start_def update_def queryNames_def example_browser_def toString_def TLD_def
      js_def)

text \<open>
  C10: \<open>start\<close> after \<open>start\<close> gives the browser that one \<open>start\<close> gives, with the same
  listeners, queries and known services; and \<open>start\<close> on any browser whose \<open>onresponse\<close>
  is set returns it unchanged.
\<close>

theorem start_idempotent:
  "start (start b) = start b
   \<and> start (b\<lparr>b_onresponse := True\<rparr>) = b\<lparr>b_onresponse := True\<rparr>"
  by (simp add: start_def update_def)

end
